theory Spec2Isabelle
  imports Main "HOL-Library.Sublist"
begin

section \<open>Python values and string operations used by the notebook\<close>

text \<open>
  The notebook \<^verbatim>\<open>main.ipynb\<close> is Python. Its own logic is a prompt template, a
  tokenization wrapper, a path decision for the model cache, a loader branch and a
  split-and-index extraction of the generated answer. Exceptions are values of the sum
  type \<open>error + 'a\<close>; \<open>LibraryError\<close> stands for whatever an external library call raises.

  A Python \<^verbatim>\<open>str\<close> is modelled as \<open>string\<close>: a \<open>char\<close> stands for a code point
  below 256. The proofs below never look at the size of the alphabet.
\<close>

datatype error = KeyError string | IndexError | ValueError | LibraryError string

text \<open>
  \<^verbatim>\<open>str.isspace\<close> on one character, for the code points below 256: tab, line feed,
  vertical tab, form feed, carriage return, the four separators 0x1C..0x1F, space,
  NEL (0x85) and the no-break space (0xA0).
\<close>

definition isspace :: "char \<Rightarrow> bool" where
  "isspace c = (of_char c \<in> {9, 10, 11, 12, 13, 28, 29, 30, 31, 32, 133, 160 :: nat})"

text \<open>\<^verbatim>\<open>s.strip()\<close>: drop the leading and the trailing whitespace.\<close>

definition str_strip :: "string \<Rightarrow> string" where
  "str_strip s = rev (dropWhile isspace (rev (dropWhile isspace s)))"

text \<open>\<^verbatim>\<open>s.startswith(p)\<close>.\<close>

fun startswith :: "string \<Rightarrow> string \<Rightarrow> bool" where
  "startswith s [] = True"
| "startswith [] (p # ps) = False"
| "startswith (c # cs) (p # ps) = (c = p \<and> startswith cs ps)"

text \<open>
  \<^verbatim>\<open>s.split(sep)\<close> with an explicit separator scans left to right for non-overlapping
  occurrences of \<open>sep\<close> and returns the pieces between them, so the result has one more
  element than there are occurrences. \<open>acc\<close> holds the current piece, reversed. An
  empty separator raises \<^verbatim>\<open>ValueError\<close>.
\<close>

fun split_scan :: "string \<Rightarrow> string \<Rightarrow> string \<Rightarrow> string list" where
  "split_scan sep acc [] = [rev acc]"
| "split_scan sep acc (c # cs) =
     (if startswith (c # cs) sep
      then rev acc # split_scan sep [] (drop (length sep - 1) cs)
      else split_scan sep (c # acc) cs)"

definition str_split :: "string \<Rightarrow> string \<Rightarrow> error + string list" where
  "str_split s sep = (if sep = [] then Inl ValueError else Inr (split_scan sep [] s))"

text \<open>
  \<^verbatim>\<open>xs[i]\<close> for a literal index \<open>i \<ge> 0\<close>: out of range raises \<^verbatim>\<open>IndexError\<close>.
\<close>

definition getitem :: "'a list \<Rightarrow> nat \<Rightarrow> error + 'a" where
  "getitem xs i = (if i < length xs then Inr (xs ! i) else Inl IndexError)"

text \<open>
  \<^verbatim>\<open>s.replace(old, new)\<close>: every non-overlapping occurrence of \<open>old\<close>, left to right,
  becomes \<open>new\<close>; with an empty \<open>old\<close>, \<open>new\<close> is put before every character and at
  the end.
\<close>

fun replace_scan :: "string \<Rightarrow> string \<Rightarrow> string \<Rightarrow> string" where
  "replace_scan old new [] = []"
| "replace_scan old new (c # cs) =
     (if startswith (c # cs) old
      then new @ replace_scan old new (drop (length old - 1) cs)
      else c # replace_scan old new cs)"

definition str_replace :: "string \<Rightarrow> string \<Rightarrow> string \<Rightarrow> string" where
  "str_replace s old new =
     (if old = [] then new @ concat (map (\<lambda>c. c # new) s) else replace_scan old new s)"

section \<open>Prompt formatter\<close>

text \<open>
  \<^verbatim>\<open>
  def format(example):
      return f"### Instruction:\n{example['English understanding']}\n\n### Output:\n{example['Shell script']}"
  \<close>
  An example is a dataset row: a dictionary from column names to text. The f-string
  reads the two columns left to right; a missing column raises \<^verbatim>\<open>KeyError\<close>.
\<close>

type_synonym example = "string \<rightharpoonup> string"

definition format :: "example \<Rightarrow> error + string" where
  "format example =
     (case example ''English understanding'' of
        None \<Rightarrow> Inl (KeyError ''English understanding'')
      | Some instruction \<Rightarrow>
          (case example ''Shell script'' of
             None \<Rightarrow> Inl (KeyError ''Shell script'')
           | Some output \<Rightarrow>
               Inr (''### Instruction:\<newline>'' @ instruction @
                    ''\<newline>\<newline>### Output:\<newline>'' @ output)))"

section \<open>Answer extraction\<close>

text \<open>
  \<^verbatim>\<open>
  def runExample(prompt):
    inputs = tokenizer(prompt, return_tensors="pt").to(device)
    outputs = model.generate(**inputs, max_new_tokens=50)

    output_text = tokenizer.decode(outputs[0], skip_special_tokens=True)
    main_output = output_text.split("### Output:")[1].strip().split("###")[0].strip()
    return(main_output)
  \<close>
  The first three statements are library calls (tokenizer, model, decoder); together
  they are the parameter \<open>generate_text\<close>, from the prompt to the decoded text or the
  exception a library raised. \<open>main_output\<close> is the expression that computes the
  variable of that name.
\<close>

definition main_output :: "string \<Rightarrow> error + string" where
  "main_output output_text =
     (case str_split output_text ''### Output:'' of
        Inl e \<Rightarrow> Inl e
      | Inr segments \<Rightarrow>
          (case getitem segments 1 of
             Inl e \<Rightarrow> Inl e
           | Inr segment \<Rightarrow>
               (case str_split (str_strip segment) ''###'' of
                  Inl e \<Rightarrow> Inl e
                | Inr parts \<Rightarrow>
                    (case getitem parts 0 of
                       Inl e \<Rightarrow> Inl e
                     | Inr part \<Rightarrow> Inr (str_strip part)))))"

definition runExample :: "(string \<Rightarrow> error + string) \<Rightarrow> string \<Rightarrow> error + string" where
  "runExample generate_text prompt =
     (case generate_text prompt of
        Inl e \<Rightarrow> Inl e
      | Inr output_text \<Rightarrow> main_output output_text)"

section \<open>Tokenization adapter\<close>

text \<open>
  The tokenizer is an object of the transformers library, loaded at run time. The model
  keeps the attributes that the notebook reads or writes and that decide the shape of
  the result: the vocabulary-dependent encoder (text to token ids, without special
  tokens), the special tokens that the tokenizer puts before and after the ids of a
  text, the end-of-sequence and the padding token (each by its id, \<open>None\<close> when the
  tokenizer has none) and the sides on which the tokenizer pads and truncates. The
  notebook assigns neither side: they are whatever the loaded tokenizer class or its
  configuration says.
\<close>

datatype side = LeftSide | RightSide

datatype padding = Longest | MaxLength | DoNotPad

record tokenizer =
  encode_text :: "string \<Rightarrow> int list"
  prefix_tokens :: "int list"
  suffix_tokens :: "int list"
  eos_token :: "int option"
  pad_token :: "int option"
  padding_side :: side
  truncation_side :: side

text \<open>
  \<^verbatim>\<open>
  def tokenize(example):
      tokenizer.pad_token = tokenizer.eos_token
      return tokenizer(format(example), truncation=True, padding="max_length", max_length=512)
  \<close>
  \<^verbatim>\<open>tokenizer\<close> is a global object: the function takes its state and returns the new
  one beside the result. The call \<^verbatim>\<open>tokenizer(...)\<close> belongs to the library and is the
  parameter \<open>call\<close>: from the tokenizer, the text and the three keyword arguments to
  the token ids (or the exception raised) and the tokenizer as the call leaves it. The
  assignment comes first, so it has happened also when \<^verbatim>\<open>format\<close> raises.
\<close>

type_synonym library_call =
  "tokenizer \<Rightarrow> string \<Rightarrow> bool \<Rightarrow> padding \<Rightarrow> nat \<Rightarrow> (error + int list) \<times> tokenizer"

definition tokenize :: "library_call \<Rightarrow> tokenizer \<Rightarrow> example \<Rightarrow> (error + int list) \<times> tokenizer" where
  "tokenize call tok example =
     (let tok' = tok\<lparr>pad_token := eos_token tok\<rparr> in
        (case format example of
           Inl e \<Rightarrow> (Inl e, tok')
         | Inr text \<Rightarrow> call tok' text True MaxLength 512))"

text \<open>
  The library's documented contract for
  \<^verbatim>\<open>tokenizer(text, truncation=..., padding=..., max_length=...)\<close> on one text, as far
  as \<^verbatim>\<open>input_ids\<close> goes. Asking for padding without a padding token raises
  \<^verbatim>\<open>ValueError\<close>. With \<^verbatim>\<open>truncation=True\<close> the ids of the text are cut on the
  truncation side so that, with the special tokens, at most \<open>max_length\<close> ids remain;
  then the special tokens are put around them. \<^verbatim>\<open>padding="max_length"\<close> fills up to
  \<open>max_length\<close> with the padding token id on the padding side;
  \<^verbatim>\<open>padding="longest"\<close> adds nothing to a single text. The contract covers a
  \<open>max_length\<close> that is not below the number of special tokens.

  What a call leaves behind in the tokenizer object is not part of that contract (a fast
  tokenizer keeps the truncation and padding settings of its last call in its backend):
  it is the parameter \<open>effect\<close>.
\<close>

definition truncate_ids :: "side \<Rightarrow> nat \<Rightarrow> int list \<Rightarrow> int list" where
  "truncate_ids sd k ids =
     (case sd of
        RightSide \<Rightarrow> take k ids
      | LeftSide \<Rightarrow> drop (length ids - k) ids)"

definition pad_to :: "side \<Rightarrow> int \<Rightarrow> nat \<Rightarrow> int list \<Rightarrow> int list" where
  "pad_to sd p n ids =
     (case sd of
        RightSide \<Rightarrow> ids @ replicate (n - length ids) p
      | LeftSide \<Rightarrow> replicate (n - length ids) p @ ids)"

definition tokenizer_call ::
  "(tokenizer \<Rightarrow> string \<Rightarrow> bool \<Rightarrow> padding \<Rightarrow> nat \<Rightarrow> tokenizer) \<Rightarrow> library_call" where
  "tokenizer_call effect tok text truncation pad max_length =
     (if pad \<noteq> DoNotPad \<and> pad_token tok = None
      then (Inl ValueError, effect tok text truncation pad max_length)
      else
        let special = length (prefix_tokens tok) + length (suffix_tokens tok);
            ids = encode_text tok text;
            kept = (if truncation
                    then truncate_ids (truncation_side tok) (max_length - special) ids
                    else ids);
            full = prefix_tokens tok @ kept @ suffix_tokens tok
        in (Inr (case (pad, pad_token tok) of
                   (MaxLength, Some p) \<Rightarrow> pad_to (padding_side tok) p max_length full
                 | _ \<Rightarrow> full),
            effect tok text truncation pad max_length))"

section \<open>Model resolver and loader\<close>

text \<open>
  \<^verbatim>\<open>
  model_name = "deepseek-ai/deepseek-coder-1.3b-base"
  mount_point = "Seagate"

  if os.path.ismount(mount_point):
      print(f"/Volume/{mount_point} is mounted.")
      model_dir = f"/Volumes/{mount_point}/VSWorkspace/{model_name.replace('/', '_')}"
      os.environ["HF_HOME"] = model_dir
  else:
      print(f"/Volume/{mount_point} is not mounted.")
      model_dir = "model"
  \<close>
  The file system answers \<^verbatim>\<open>os.path.ismount\<close>: it is the parameter \<open>ismount\<close>. The cell
  reads the process environment and leaves three things behind: the line it printed, the
  variable \<^verbatim>\<open>model_dir\<close> and the environment.
\<close>

definition notebook_model_name :: string where
  "notebook_model_name = ''deepseek-ai/deepseek-coder-1.3b-base''"

definition notebook_mount_point :: string where
  "notebook_mount_point = ''Seagate''"

record resolved =
  stdout :: "string list"
  model_dir :: string
  environ :: "string \<rightharpoonup> string"

definition resolve_model_dir ::
  "(string \<Rightarrow> bool) \<Rightarrow> string \<Rightarrow> string \<Rightarrow> (string \<rightharpoonup> string) \<Rightarrow> resolved" where
  "resolve_model_dir ismount mount_point model_name env =
     (if ismount mount_point then
        (let d = ''/Volumes/'' @ mount_point @ ''/VSWorkspace/'' @
                 str_replace model_name ''/'' ''_''
         in \<lparr>stdout = [''/Volume/'' @ mount_point @ '' is mounted.''],
             model_dir = d,
             environ = env(''HF_HOME'' \<mapsto> d)\<rparr>)
      else
        \<lparr>stdout = [''/Volume/'' @ mount_point @ '' is not mounted.''],
         model_dir = ''model'',
         environ = env\<rparr>)"

text \<open>
  \<^verbatim>\<open>
  if os.path.exists(model_dir):
      tokenizer = AutoTokenizer.from_pretrained(model_dir)
      model = AutoModelForCausalLM.from_pretrained(model_dir)
  else:
      tokenizer = AutoTokenizer.from_pretrained(model_name, device_map=device)
      model = AutoModelForCausalLM.from_pretrained(
          model_name, torch_dtype=torch.float16, device_map="auto",
          trust_remote_code=True, use_safetensors=True)
  \<close>
  The two \<^verbatim>\<open>from_pretrained\<close> functions belong to the library and are parameters: each
  takes the name or path and the keyword arguments and returns the loaded object or the
  exception it raised. The cell returns the calls it made, in order, beside its result.
\<close>

type_synonym kwargs = "(string \<times> string) list"

datatype load_call = LoadTokenizer string kwargs | LoadModel string kwargs

text \<open>The keyword arguments of the two calls of the \<^verbatim>\<open>else\<close> branch.\<close>

definition fetch_kwargs_tokenizer :: "string \<Rightarrow> kwargs" where
  "fetch_kwargs_tokenizer device = [(''device_map'', device)]"

definition fetch_kwargs_model :: kwargs where
  "fetch_kwargs_model =
     [(''torch_dtype'', ''torch.float16''), (''device_map'', ''auto''),
      (''trust_remote_code'', ''True''), (''use_safetensors'', ''True'')]"

definition load_cell ::
  "(string \<Rightarrow> bool) \<Rightarrow> (string \<Rightarrow> kwargs \<Rightarrow> error + 't) \<Rightarrow> (string \<Rightarrow> kwargs \<Rightarrow> error + 'm) \<Rightarrow>
   string \<Rightarrow> string \<Rightarrow> string \<Rightarrow> load_call list \<times> (error + 't \<times> 'm)" where
  "load_cell exists tokenizer_from_pretrained model_from_pretrained dir model_name device =
     (if exists dir then
        (case tokenizer_from_pretrained dir [] of
           Inl e \<Rightarrow> ([LoadTokenizer dir []], Inl e)
         | Inr t \<Rightarrow>
             (case model_from_pretrained dir [] of
                Inl e \<Rightarrow> ([LoadTokenizer dir [], LoadModel dir []], Inl e)
              | Inr m \<Rightarrow> ([LoadTokenizer dir [], LoadModel dir []], Inr (t, m))))
      else
        (case tokenizer_from_pretrained model_name (fetch_kwargs_tokenizer device) of
           Inl e \<Rightarrow> ([LoadTokenizer model_name (fetch_kwargs_tokenizer device)], Inl e)
         | Inr t \<Rightarrow>
             (case model_from_pretrained model_name fetch_kwargs_model of
                Inl e \<Rightarrow>
                  ([LoadTokenizer model_name (fetch_kwargs_tokenizer device),
                    LoadModel model_name fetch_kwargs_model], Inl e)
              | Inr m \<Rightarrow>
                  ([LoadTokenizer model_name (fetch_kwargs_tokenizer device),
                    LoadModel model_name fetch_kwargs_model], Inr (t, m)))))"

section \<open>Reference operations and sample inputs\<close>

text \<open>
  The specification describes the extraction in words: the text before the first
  occurrence of a marker (all of the text when the marker is absent) and the text after
  the first occurrence. These two functions say that directly, without \<open>split_scan\<close>.
\<close>

fun before_first :: "string \<Rightarrow> string \<Rightarrow> string" where
  "before_first [] sep = []"
| "before_first (c # cs) sep =
     (if startswith (c # cs) sep then [] else c # before_first cs sep)"

fun after_first :: "string \<Rightarrow> string \<Rightarrow> string" where
  "after_first [] sep = []"
| "after_first (c # cs) sep =
     (if startswith (c # cs) sep then drop (length sep) (c # cs) else after_first cs sep)"

text \<open>
  A dataset row; a byte-level tokenizer that puts a begin-of-sequence token (id 1)
  before the text, has an end-of-sequence token (id 2) and no padding token yet, pads on
  the left and truncates on the right; a library call that does nothing but hand back
  the tokenizer it was given; and a file system in which the only mount point is
  \<^verbatim>\<open>/Volumes/Seagate\<close>, seen from a working directory other than \<^verbatim>\<open>/Volumes\<close>.
\<close>

definition sample_example :: example where
  "sample_example = [''English understanding'' \<mapsto> ''list files'', ''Shell script'' \<mapsto> ''ls'']"

definition byte_ids :: "string \<Rightarrow> int list" where
  "byte_ids s = map (\<lambda>c. int (of_char c)) s"

definition left_padding_tokenizer :: tokenizer where
  "left_padding_tokenizer =
     \<lparr>encode_text = byte_ids, prefix_tokens = [1], suffix_tokens = [],
      eos_token = Some 2, pad_token = None,
      padding_side = LeftSide, truncation_side = RightSide\<rparr>"

definition idle_call :: library_call where
  "idle_call tok text truncation pad max_length = (Inr [], tok)"

definition seagate_volume_mounted :: "string \<Rightarrow> bool" where
  "seagate_volume_mounted path = (path = ''/Volumes/Seagate'')"

text \<open>
  A decoded text with two instruction/output blocks, as a model that keeps generating
  after its answer produces.
\<close>

definition two_block_text :: string where
  "two_block_text =
     ''### Instruction:\<newline>remove\<newline>\<newline>### Output:\<newline>rm\<newline>\<newline>'' @
     ''### Instruction:\<newline>move\<newline>\<newline>### Output:\<newline>MOVE_FILES\<newline>###''"

section \<open>Properties of the prompt formatter\<close>

text \<open>
  C1. For every example with instruction field \<open>I\<close> and output field \<open>O\<close>, the formatter
  returns exactly the string "### Instruction:", line feed, \<open>I\<close>, two line feeds,
  "### Output:", line feed, \<open>O\<close>: the two fields stand in it unchanged and whole (its
  length is 31 plus their lengths), and the result is a function of the two fields only.
\<close>

theorem format_exact:
  assumes "example ''English understanding'' = Some instr"
    and "example ''Shell script'' = Some out"
  shows "format example =
           Inr (''### Instruction:'' @ [CHR 0x0A] @ instr @ [CHR 0x0A, CHR 0x0A] @
                ''### Output:'' @ [CHR 0x0A] @ out)
         \<and> (\<forall>r. format example = Inr r \<longrightarrow> length r = 31 + length instr + length out)
         \<and> (\<forall>example'. example' ''English understanding'' = Some instr
               \<longrightarrow> example' ''Shell script'' = Some out
               \<longrightarrow> format example' = format example)"
  using assms by (simp add: format_def)

theorem format_exact_witness:
  "format [''English understanding'' \<mapsto> ''Move all files from A to B'',
           ''Shell script'' \<mapsto> ''mv A/* B'']
     = Inr (''### Instruction:'' @ [CHR 0x0A] @ ''Move all files from A to B'' @
            [CHR 0x0A, CHR 0x0A] @ ''### Output:'' @ [CHR 0x0A] @ ''mv A/* B'')"
  using format_exact
    [of "[''English understanding'' \<mapsto> ''Move all files from A to B'',
          ''Shell script'' \<mapsto> ''mv A/* B'']"
        "''Move all files from A to B''" "''mv A/* B''"]
  by simp

section \<open>Facts about the string operations\<close>

text \<open>
  \<open>startswith\<close> is the library's \<open>prefix\<close>, and "contains" is its \<open>sublist\<close>:
  \<open>sublist sep s\<close> says that \<open>s = ps @ sep @ ss\<close> for some \<open>ps\<close> and \<open>ss\<close>.
\<close>

lemma startswith_prefix: "startswith s p = prefix p s"
  by (induction s p rule: startswith.induct) auto

lemma split_scan_no_occurrence:
  "\<not> sublist sep s \<Longrightarrow> split_scan sep acc s = [rev acc @ s]"
proof (induction s arbitrary: acc)
  case Nil
  then show ?case by simp
next
  case (Cons c cs)
  then have "\<not> startswith (c # cs) sep" and "\<not> sublist sep cs"
    by (simp_all add: startswith_prefix sublist_Cons_right)
  with Cons.IH [of "c # acc"] show ?case by simp
qed

lemma split_scan_before_first:
  "sep \<noteq> [] \<Longrightarrow> \<exists>tl. split_scan sep acc s = (rev acc @ before_first s sep) # tl"
proof (induction s arbitrary: acc)
  case Nil
  then show ?case by simp
next
  case (Cons c cs)
  show ?case
  proof (cases "startswith (c # cs) sep")
    case True
    then show ?thesis by simp
  next
    case False
    from Cons.IH [OF Cons.prems, of "c # acc"] False show ?thesis by simp
  qed
qed

lemma split_scan_occurrence:
  "sep \<noteq> [] \<Longrightarrow> sublist sep s \<Longrightarrow>
   split_scan sep acc s = (rev acc @ before_first s sep) # split_scan sep [] (after_first s sep)"
proof (induction s arbitrary: acc)
  case Nil
  then show ?case by simp
next
  case (Cons c cs)
  show ?case
  proof (cases "startswith (c # cs) sep")
    case True
    from Cons.prems(1) have "drop (length sep - Suc 0) cs = drop (length sep) (c # cs)"
      by (cases sep) simp_all
    with True show ?thesis by simp
  next
    case False
    with Cons.prems(2) have "sublist sep cs"
      by (simp add: startswith_prefix sublist_Cons_right)
    from Cons.IH [OF Cons.prems(1) this, of "c # acc"] False show ?thesis by simp
  qed
qed


lemma before_first_no_occurrence: "\<not> sublist sep s \<Longrightarrow> before_first s sep = s"
  by (induction s) (auto simp: startswith_prefix sublist_Cons_right)



text \<open>
  When the last character of a separator occurs nowhere else in it (as the colon of
  "### Output:"), an occurrence cannot begin in a text that does not contain the
  separator and end in a following copy of the separator.
\<close>

lemma no_earlier_occurrence:
  assumes "sep \<noteq> []" and "last sep \<notin> set (butlast sep)" and "\<not> sublist sep pre"
  shows "\<not> sublist sep (pre @ butlast sep)"
proof
  assume "sublist sep (pre @ butlast sep)"
  then obtain u v where eq: "pre @ butlast sep = u @ sep @ v"
    by (auto simp: sublist_def)
  from assms(1) have sep: "sep = butlast sep @ [last sep]" by simp
  from eq consider w where "pre = u @ w" "w @ butlast sep = sep @ v"
    | w where "pre @ w = u" "butlast sep = w @ sep @ v"
    by (auto simp: append_eq_append_conv2)
  then show False
  proof cases
    case 1
    from 1(2) consider w' where "w = sep @ w'"
      | w' where "w @ w' = sep" "w' \<noteq> []" "butlast sep = w' @ v"
      by (auto simp: append_eq_append_conv2) metis
    then show False
    proof cases
      case 1
      with \<open>pre = u @ w\<close> assms(3) show False by (simp add: sublist_def) blast
    next
      case 2
      then have "last sep = last w'" by (metis last_appendR)
      with 2 have "last sep \<in> set (butlast sep)" by simp
      with assms(2) show False by simp
    qed
  next
    case 2
    then have "set sep \<subseteq> set (butlast sep)" by auto
    with assms(1,2) show False using last_in_set by blast
  qed
qed

lemma first_occurrence_split:
  assumes "sep \<noteq> []" and "\<not> sublist sep (pre @ butlast sep)"
  shows "before_first (pre @ sep @ rest) sep = pre \<and> after_first (pre @ sep @ rest) sep = rest"
  using assms
proof (induction pre)
  case Nil
  then show ?case by (cases sep) (simp_all add: startswith_prefix)
next
  case (Cons c cs)
  have "\<not> prefix sep (c # cs @ sep @ rest)"
  proof
    assume p: "prefix sep (c # cs @ sep @ rest)"
    define a where "a = (c # cs) @ butlast sep"
    from Cons.prems(1) have full: "c # cs @ sep @ rest = a @ last sep # rest"
      by (simp add: a_def)
    have "length sep \<le> length a" by (simp add: a_def)
    then have "take (length sep) (a @ last sep # rest) = take (length sep) a"
      by simp
    moreover from p have "take (length sep) (c # cs @ sep @ rest) = sep"
      by (auto simp: prefix_def)
    ultimately have "take (length sep) a = sep"
      using full by simp
    then have "prefix sep a"
      by (metis take_is_prefix)
    then have "prefix sep ((c # cs) @ butlast sep)"
      by (simp add: a_def)
    with Cons.prems(2) show False by (simp add: sublist_Cons_right)
  qed
  moreover from Cons.prems(2) have "\<not> sublist sep (cs @ butlast sep)"
    by (simp add: sublist_Cons_right)
  ultimately show ?case using Cons.IH Cons.prems(1) by (simp add: startswith_prefix)
qed

lemma marker_first:
  "\<not> sublist ''### Output:'' pre \<Longrightarrow>
   before_first (pre @ ''### Output:'' @ rest) ''### Output:'' = pre \<and>
   after_first (pre @ ''### Output:'' @ rest) ''### Output:'' = rest"
  using first_occurrence_split [of "''### Output:''" pre rest]
    no_earlier_occurrence [of "''### Output:''" pre]
  by simp

section \<open>Properties of the answer extraction\<close>

lemma main_output_no_marker:
  "\<not> sublist ''### Output:'' t \<Longrightarrow> main_output t = Inl IndexError"
  by (simp add: main_output_def str_split_def getitem_def split_scan_no_occurrence)

lemma main_output_marker:
  assumes "sublist ''### Output:'' t"
  shows "main_output t =
     Inr (str_strip (before_first (str_strip (before_first (after_first t ''### Output:'') ''### Output:'')) ''###''))"
proof -
  let ?m = "''### Output:''"
  obtain tl1 where 1: "split_scan ?m [] (after_first t ?m) = before_first (after_first t ?m) ?m # tl1"
    using split_scan_before_first [of ?m "[]" "after_first t ?m"] by auto
  have 2: "split_scan ?m [] t = before_first t ?m # before_first (after_first t ?m) ?m # tl1"
    using split_scan_occurrence [of ?m t "[]"] assms 1 by simp
  obtain tl2 where 3: "split_scan ''###'' [] (str_strip (before_first (after_first t ?m) ?m))
      = before_first (str_strip (before_first (after_first t ?m) ?m)) ''###'' # tl2"
    using split_scan_before_first [of "''###''" "[]"] by auto
  show ?thesis
    by (simp add: main_output_def str_split_def getitem_def 2 3)
qed

lemma str_strip_between:
  assumes "\<not> isspace c" and "\<not> isspace d"
  shows "str_strip (u @ c # m @ d # v) =
           dropWhile isspace u @ c # m @ d # rev (dropWhile isspace (rev v))"
proof -
  have "dropWhile isspace (u @ c # m @ d # v) = dropWhile isspace u @ c # m @ d # v"
    using assms(1) by (rule dropWhile_append3)
  moreover have "dropWhile isspace (rev v @ d # rev m @ c # rev (dropWhile isspace u))
      = dropWhile isspace (rev v) @ d # rev m @ c # rev (dropWhile isspace u)"
    using assms(2) by (rule dropWhile_append3)
  ultimately show ?thesis by (simp add: str_strip_def)
qed

lemma isspace_simps:
  "isspace (CHR 0x0A)" "isspace (CHR '' '')" "\<not> isspace (CHR ''#'')" "\<not> isspace (CHR ''M'')" "\<not> isspace (CHR ''S'')"
  by (simp_all add: isspace_def)

lemma sample_segment:
  assumes "\<not> startswith post ''# Output:''" and "\<not> startswith post ''## Output:''"
  shows "before_first (''\<newline>MOVE_FILES\<newline>###'' @ post) ''### Output:'' =
           (if startswith post '' Output:'' then ''\<newline>MOVE_FILES\<newline>''
            else ''\<newline>MOVE_FILES\<newline>###'' @ before_first post ''### Output:'')"
  using assms by simp

lemma sample_cut:
  "str_strip (before_first (str_strip (''\<newline>MOVE_FILES\<newline>###'' @ x)) ''###'') = ''MOVE_FILES''"
proof -
  have "str_strip ([CHR 0x0A] @ CHR ''M'' # ''OVE_FILES\<newline>##'' @ CHR ''#'' # x)
      = dropWhile isspace [CHR 0x0A] @ CHR ''M'' # ''OVE_FILES\<newline>##'' @ CHR ''#'' # rev (dropWhile isspace (rev x))"
    by (rule str_strip_between) (simp_all add: isspace_simps)
  then have "str_strip (''\<newline>MOVE_FILES\<newline>###'' @ x) = ''MOVE_FILES\<newline>###'' @ rev (dropWhile isspace (rev x))"
    by (simp add: isspace_simps)
  then show ?thesis
    by (simp add: str_strip_def isspace_def)
qed

lemma sample_cut_bare:
  "str_strip (before_first (str_strip ''\<newline>MOVE_FILES\<newline>'') ''###'') = ''MOVE_FILES''"
  by (simp add: str_strip_def isspace_def)

lemma main_output_sample:
  assumes "\<not> sublist ''### Output:'' pre"
    and "\<not> startswith post ''# Output:''" and "\<not> startswith post ''## Output:''"
  shows "main_output (pre @ ''### Output:\<newline>MOVE_FILES\<newline>###'' @ post) = Inr ''MOVE_FILES''"
proof -
  let ?m = "''### Output:''"
  let ?rest = "''\<newline>MOVE_FILES\<newline>###'' @ post"
  have t: "pre @ ''### Output:\<newline>MOVE_FILES\<newline>###'' @ post = pre @ ?m @ ?rest"
    by simp
  have "sublist ?m (pre @ ?m @ ?rest)" by (rule sublist_appendI)
  then have "main_output (pre @ ?m @ ?rest) =
      Inr (str_strip (before_first (str_strip (before_first (after_first (pre @ ?m @ ?rest) ?m) ?m)) ''###''))"
    by (rule main_output_marker)
  also have "after_first (pre @ ?m @ ?rest) ?m = ?rest"
    using marker_first [OF assms(1)] by blast
  finally have out: "main_output (pre @ ?m @ ?rest) =
      Inr (str_strip (before_first (str_strip (before_first ?rest ?m)) ''###''))" .
  show ?thesis
  proof (cases "startswith post '' Output:''")
    case True
    then have "before_first ?rest ?m = ''\<newline>MOVE_FILES\<newline>''"
      by (simp only: sample_segment [OF assms(2,3)] if_True)
    with out show ?thesis
      unfolding t by (simp only: sample_cut_bare)
  next
    case False
    then have "before_first ?rest ?m = ''\<newline>MOVE_FILES\<newline>###'' @ before_first post ?m"
      by (simp only: sample_segment [OF assms(2,3)] if_False)
    with out show ?thesis
      unfolding t by (simp only: sample_cut)
  qed
qed

text \<open>
  C3 (as amended). For every decoded text that contains the marker "### Output:", the
  extraction in \<open>runExample\<close> returns the text between the first marker and the next
  "### Output:" (or the end of the text), stripped, cut before its first "###" (kept
  whole when there is none) and stripped again. When no further marker follows the first
  one, that is the text after the first marker, stripped, cut before the first subsequent
  "###", stripped again. In particular, for a decoded text
  \<open>pre @ "### Output:\nMOVE_FILES\n###" @ post\<close> where \<open>pre\<close> contains no marker and
  \<open>post\<close> does not begin with "# Output:" or "## Output:", it returns exactly
  "MOVE_FILES".
\<close>

theorem runExample_first_segment:
  assumes "generate_text prompt = Inr output_text"
    and "sublist ''### Output:'' output_text"
  shows "runExample generate_text prompt =
           Inr (str_strip (before_first (str_strip
                  (before_first (after_first output_text ''### Output:'') ''### Output:''))
                  ''###''))
         \<and> (\<not> sublist ''### Output:'' (after_first output_text ''### Output:'') \<longrightarrow>
              runExample generate_text prompt =
                Inr (str_strip (before_first (str_strip
                       (after_first output_text ''### Output:'')) ''###'')))
         \<and> (\<forall>pre post.
               output_text = pre @ ''### Output:\<newline>MOVE_FILES\<newline>###'' @ post \<longrightarrow>
               \<not> sublist ''### Output:'' pre \<longrightarrow>
               \<not> startswith post ''# Output:'' \<longrightarrow>
               \<not> startswith post ''## Output:'' \<longrightarrow>
               runExample generate_text prompt = Inr ''MOVE_FILES'')"
proof -
  have run: "runExample generate_text prompt = main_output output_text"
    using assms(1) by (simp add: runExample_def)
  have first: "main_output output_text =
      Inr (str_strip (before_first (str_strip
             (before_first (after_first output_text ''### Output:'') ''### Output:''))
             ''###''))"
    using assms(2) by (rule main_output_marker)
  have once: "main_output output_text =
      Inr (str_strip (before_first (str_strip (after_first output_text ''### Output:'')) ''###''))"
    if "\<not> sublist ''### Output:'' (after_first output_text ''### Output:'')"
    using first before_first_no_occurrence [OF that] by simp
  have sample: "main_output output_text = Inr ''MOVE_FILES''"
    if "output_text = pre @ ''### Output:\<newline>MOVE_FILES\<newline>###'' @ post"
      and "\<not> sublist ''### Output:'' pre"
      and "\<not> startswith post ''# Output:''" and "\<not> startswith post ''## Output:''"
    for pre post
    unfolding that(1) using that(2-4) by (rule main_output_sample)
  from first once sample show ?thesis
    unfolding run by blast
qed

theorem runExample_first_segment_witness:
  "sublist ''### Output:''
     (''### Instruction:\<newline>Move all files from A to B\<newline>\<newline>'' @
      ''### Output:\<newline>MOVE_FILES\<newline>###'' @ '' Instruction:'')
   \<and> \<not> sublist ''### Output:'' ''### Instruction:\<newline>Move all files from A to B\<newline>\<newline>''
   \<and> runExample
        (\<lambda>p. Inr (''### Instruction:\<newline>Move all files from A to B\<newline>\<newline>'' @
                  ''### Output:\<newline>MOVE_FILES\<newline>###'' @ '' Instruction:''))
        ''### Instruction:\<newline>Move all files from A to B\<newline>\<newline>### Output:\<newline>''
      = Inr ''MOVE_FILES''"
proof -
  let ?pre = "''### Instruction:\<newline>Move all files from A to B\<newline>\<newline>''"
  let ?post = "'' Instruction:''"
  let ?t = "?pre @ ''### Output:\<newline>MOVE_FILES\<newline>###'' @ ?post"
  let ?g = "\<lambda>p::string. (Inr ?t :: error + string)"
  let ?p = "''### Instruction:\<newline>Move all files from A to B\<newline>\<newline>### Output:\<newline>''"
  have c: "sublist ''### Output:'' ?t" by (simp add: sublist_code(3))
  have n: "\<not> sublist ''### Output:'' ?pre" by (simp add: sublist_code(3))
  have "\<forall>pre post. ?t = pre @ ''### Output:\<newline>MOVE_FILES\<newline>###'' @ post \<longrightarrow>
          \<not> sublist ''### Output:'' pre \<longrightarrow> \<not> startswith post ''# Output:'' \<longrightarrow>
          \<not> startswith post ''## Output:'' \<longrightarrow> runExample ?g ?p = Inr ''MOVE_FILES''"
    using runExample_first_segment [of ?g ?p ?t, OF refl c] by blast
  then have "runExample ?g ?p = Inr ''MOVE_FILES''"
    using n by (elim allE [of _ ?pre] allE [of _ ?post]) simp
  with c n show ?thesis by blast
qed

text \<open>
  As the claim was stated (any decoded text containing "### Output:\nMOVE_FILES\n###"
  gives "MOVE_FILES"; the text after the first marker is cut at the first "###"), it
  fails: with two output blocks the first one is returned, and a second marker that
  overlaps the first "###" moves the cut.
\<close>

theorem runExample_sample_counterexample:
  "sublist ''### Output:\<newline>MOVE_FILES\<newline>###'' two_block_text
   \<and> runExample (\<lambda>p. Inr two_block_text) ''### Instruction:\<newline>remove\<newline>\<newline>### Output:\<newline>''
       = Inr ''rm''
   \<and> main_output ''### Output:#### Output:'' = Inr ''#''
   \<and> str_strip (before_first (str_strip (after_first ''### Output:#### Output:'' ''### Output:''))
        ''###'') = []"
  by (simp add: two_block_text_def sublist_code(3) runExample_def main_output_def str_split_def
      getitem_def str_strip_def isspace_def)

text \<open>
  C4. For every decoded text that does not contain the marker "### Output:", the split
  yields a single segment (the text itself), indexing it at 1 is out of range, and the
  extraction, and with it \<open>runExample\<close>, ends in \<^verbatim>\<open>IndexError\<close>: a defined failure, no
  value is returned.
\<close>

theorem runExample_no_marker_fails:
  assumes "\<not> sublist ''### Output:'' output_text"
  shows "str_split output_text ''### Output:'' = Inr [output_text]
       \<and> getitem [output_text] 1 = Inl IndexError
       \<and> main_output output_text = Inl IndexError
       \<and> (\<forall>generate_text prompt. generate_text prompt = Inr output_text
             \<longrightarrow> runExample generate_text prompt = Inl IndexError)"
  using assms
  by (simp add: main_output_no_marker runExample_def str_split_def getitem_def
      split_scan_no_occurrence)

theorem runExample_no_marker_fails_witness:
  "\<not> sublist ''### Output:'' ''mv A/* B''
   \<and> str_split ''mv A/* B'' ''### Output:'' = Inr [''mv A/* B'']
   \<and> main_output ''mv A/* B'' = Inl IndexError
   \<and> runExample (\<lambda>p. Inr ''mv A/* B'') ''### Instruction:'' = Inl IndexError"
  using runExample_no_marker_fails [of "''mv A/* B''"]
  by (simp add: sublist_code(3))



section \<open>Properties of the tokenization adapter\<close>

lemma sublist_truncate_ids: "sublist (truncate_ids sd k ids) ids"
  by (cases sd) (simp_all add: truncate_ids_def)

lemma length_truncate_ids: "length (truncate_ids sd k ids) = min k (length ids)"
  by (cases sd) (auto simp: truncate_ids_def)

lemma truncate_ids_short: "length ids \<le> k \<Longrightarrow> truncate_ids sd k ids = ids"
  by (cases sd) (simp_all add: truncate_ids_def)

lemma length_pad_to: "length ids \<le> n \<Longrightarrow> length (pad_to sd p n ids) = n"
  by (cases sd) (simp_all add: pad_to_def)

lemma tokenize_result:
  assumes "format example = Inr text" and "eos_token tok = Some eos"
  shows "fst (tokenize (tokenizer_call effect) tok example) =
           Inr (pad_to (padding_side tok) eos 512
                  (prefix_tokens tok @
                   truncate_ids (truncation_side tok)
                     (512 - (length (prefix_tokens tok) + length (suffix_tokens tok)))
                     (encode_text tok text) @
                   suffix_tokens tok))"
  using assms by (simp add: tokenize_def tokenizer_call_def Let_def)

lemma sample_format:
  "format sample_example = Inr ''### Instruction:\<newline>list files\<newline>\<newline>### Output:\<newline>ls''"
  by (simp add: format_def sample_example_def)

lemma sample_ids_length:
  "length (byte_ids ''### Instruction:\<newline>list files\<newline>\<newline>### Output:\<newline>ls'') = 43"
  by (simp add: byte_ids_def)

text \<open>
  C2 (as amended). For every example that \<open>format\<close> accepts and every tokenizer that
  has an end-of-sequence token and no more than 512 special tokens, \<open>tokenize\<close> returns
  a token-id sequence of length exactly 512. An input of 512 tokens or more is truncated:
  the result is the special tokens around a contiguous part of the ids of the text, with
  no padding. A shorter input is padded up to 512 with the end-of-sequence token id on
  the tokenizer's padding side: on the right when that side is the right one, on the
  left when it is the left one.
\<close>

theorem tokenize_fixed_length:
  assumes "format example = Inr text" and "eos_token tok = Some eos"
    and "length (prefix_tokens tok) + length (suffix_tokens tok) \<le> 512"
  shows "\<exists>ids. fst (tokenize (tokenizer_call effect) tok example) = Inr ids \<and> length ids = 512
           \<and> (512 \<le> length (prefix_tokens tok @ encode_text tok text @ suffix_tokens tok) \<longrightarrow>
                (\<exists>kept. sublist kept (encode_text tok text)
                   \<and> ids = prefix_tokens tok @ kept @ suffix_tokens tok))
           \<and> (length (prefix_tokens tok @ encode_text tok text @ suffix_tokens tok) < 512 \<longrightarrow>
                ids = (case padding_side tok of
                         RightSide \<Rightarrow>
                           (prefix_tokens tok @ encode_text tok text @ suffix_tokens tok) @
                           replicate (512 - length (prefix_tokens tok @ encode_text tok text @
                                                    suffix_tokens tok)) eos
                       | LeftSide \<Rightarrow>
                           replicate (512 - length (prefix_tokens tok @ encode_text tok text @
                                                    suffix_tokens tok)) eos @
                           (prefix_tokens tok @ encode_text tok text @ suffix_tokens tok)))"
proof -
  let ?raw = "encode_text tok text"
  let ?k = "512 - (length (prefix_tokens tok) + length (suffix_tokens tok))"
  let ?kept = "truncate_ids (truncation_side tok) ?k ?raw"
  let ?full = "prefix_tokens tok @ ?kept @ suffix_tokens tok"
  let ?ids = "pad_to (padding_side tok) eos 512 ?full"
  have r: "fst (tokenize (tokenizer_call effect) tok example) = Inr ?ids"
    using assms(1,2) by (rule tokenize_result)
  have lf: "length ?full \<le> 512"
    using assms(3) by (simp add: length_truncate_ids)
  then have l: "length ?ids = 512"
    by (rule length_pad_to)
  have t: "\<exists>kept. sublist kept ?raw \<and> ?ids = prefix_tokens tok @ kept @ suffix_tokens tok"
    if "512 \<le> length (prefix_tokens tok @ ?raw @ suffix_tokens tok)"
  proof -
    from that assms(3) have "length ?full = 512"
      by (simp add: length_truncate_ids)
    then have "?ids = ?full"
      by (cases "padding_side tok") (simp_all add: pad_to_def)
    then show ?thesis
      using sublist_truncate_ids by blast
  qed
  have p: "?ids = (case padding_side tok of
                     RightSide \<Rightarrow>
                       (prefix_tokens tok @ ?raw @ suffix_tokens tok) @
                       replicate (512 - length (prefix_tokens tok @ ?raw @ suffix_tokens tok)) eos
                   | LeftSide \<Rightarrow>
                       replicate (512 - length (prefix_tokens tok @ ?raw @ suffix_tokens tok)) eos @
                       (prefix_tokens tok @ ?raw @ suffix_tokens tok))"
    if "length (prefix_tokens tok @ ?raw @ suffix_tokens tok) < 512"
  proof -
    from that have "length ?raw \<le> ?k" by simp
    then have "?kept = ?raw" by (rule truncate_ids_short)
    then show ?thesis
      by (cases "padding_side tok") (simp_all add: pad_to_def)
  qed
  from r l t p show ?thesis by blast
qed

theorem tokenize_fixed_length_witness:
  "\<exists>ids. fst (tokenize (tokenizer_call (\<lambda>tok text truncation pad max_length. tok))
                 left_padding_tokenizer sample_example) = Inr ids
      \<and> length ids = 512
      \<and> ids = replicate 468 2 @ [1] @
              byte_ids ''### Instruction:\<newline>list files\<newline>\<newline>### Output:\<newline>ls''"
  using tokenize_fixed_length [OF sample_format, of left_padding_tokenizer 2
      "\<lambda>tok text truncation pad max_length. tok"]
  by (simp add: left_padding_tokenizer_def sample_ids_length)

text \<open>
  As the claim was stated (a short input is padded on the right), it fails for a
  tokenizer whose padding side is the left: the padding comes first.
\<close>

theorem tokenize_right_padding_counterexample:
  "fst (tokenize (tokenizer_call (\<lambda>tok text truncation pad max_length. tok))
          left_padding_tokenizer sample_example) =
     Inr (replicate 468 2 @ [1] @
          byte_ids ''### Instruction:\<newline>list files\<newline>\<newline>### Output:\<newline>ls'')
   \<and> fst (tokenize (tokenizer_call (\<lambda>tok text truncation pad max_length. tok))
          left_padding_tokenizer sample_example) \<noteq>
     Inr (([1] @ byte_ids ''### Instruction:\<newline>list files\<newline>\<newline>### Output:\<newline>ls'') @
          replicate 468 2)"
proof -
  let ?ids = "[1] @ byte_ids ''### Instruction:\<newline>list files\<newline>\<newline>### Output:\<newline>ls''"
  have 1: "fst (tokenize (tokenizer_call (\<lambda>tok text truncation pad max_length. tok))
             left_padding_tokenizer sample_example) = Inr (replicate 468 2 @ ?ids)"
    using tokenize_result [OF sample_format, of left_padding_tokenizer 2]
    by (simp add: left_padding_tokenizer_def sample_ids_length pad_to_def truncate_ids_def)
  have "hd (replicate 468 2 @ ?ids) \<noteq> hd (?ids @ replicate 468 2)"
    by simp
  then have "replicate 468 2 @ ?ids \<noteq> ?ids @ replicate 468 2"
    by (rule contrapos_nn) (erule arg_cong)
  with 1 show ?thesis by simp
qed

text \<open>
  C7 (as amended). The padding token is set to the end-of-sequence token by \<open>tokenize\<close>
  itself, at the start of every call: a per-call effect, not an initialization before
  the first call. The tokenizer that a \<open>tokenize\<close> call hands to the library call has
  its padding token equal to its end-of-sequence token; when \<open>format\<close> raises, that
  tokenizer is the state left behind. Neither the result nor the state after a call
  depends on the padding token before it, so no ordering is required.
\<close>

theorem tokenize_assigns_pad_token:
  "pad_token (tok\<lparr>pad_token := eos_token tok\<rparr>) = eos_token (tok\<lparr>pad_token := eos_token tok\<rparr>)
   \<and> (\<forall>text. format example = Inr text \<longrightarrow>
          tokenize call tok example =
            call (tok\<lparr>pad_token := eos_token tok\<rparr>) text True MaxLength 512)
   \<and> (\<forall>e. format example = Inl e \<longrightarrow>
          tokenize call tok example = (Inl e, tok\<lparr>pad_token := eos_token tok\<rparr>))
   \<and> tokenize call (tok\<lparr>pad_token := p\<rparr>) example = tokenize call tok example"
  by (simp add: tokenize_def Let_def)

theorem tokenize_assigns_pad_token_witness:
  "tokenize idle_call left_padding_tokenizer sample_example
     = (Inr [], left_padding_tokenizer\<lparr>pad_token := Some 2\<rparr>)
   \<and> tokenize idle_call left_padding_tokenizer Map.empty
     = (Inl (KeyError ''English understanding''), left_padding_tokenizer\<lparr>pad_token := Some 2\<rparr>)
   \<and> tokenize idle_call (left_padding_tokenizer\<lparr>pad_token := Some 7\<rparr>) sample_example
     = tokenize idle_call left_padding_tokenizer sample_example"
proof -
  let ?t = "''### Instruction:\<newline>list files\<newline>\<newline>### Output:\<newline>ls''"
  have e: "eos_token left_padding_tokenizer = Some 2"
    by (simp add: left_padding_tokenizer_def)
  have k: "format Map.empty = Inl (KeyError ''English understanding'')"
    by (simp add: format_def)
  have "tokenize idle_call left_padding_tokenizer sample_example =
          idle_call (left_padding_tokenizer\<lparr>pad_token := eos_token left_padding_tokenizer\<rparr>)
            ?t True MaxLength 512"
    using tokenize_assigns_pad_token [of left_padding_tokenizer sample_example idle_call "Some 7"]
      sample_format by blast
  then have 1: "tokenize idle_call left_padding_tokenizer sample_example
      = (Inr [], left_padding_tokenizer\<lparr>pad_token := Some 2\<rparr>)"
    by (simp add: idle_call_def e)
  have "tokenize idle_call left_padding_tokenizer Map.empty =
          (Inl (KeyError ''English understanding''),
           left_padding_tokenizer\<lparr>pad_token := eos_token left_padding_tokenizer\<rparr>)"
    using tokenize_assigns_pad_token [of left_padding_tokenizer Map.empty idle_call "Some 7"] k
    by blast
  then have 2: "tokenize idle_call left_padding_tokenizer Map.empty
      = (Inl (KeyError ''English understanding''), left_padding_tokenizer\<lparr>pad_token := Some 2\<rparr>)"
    by (simp add: e)
  have 3: "tokenize idle_call (left_padding_tokenizer\<lparr>pad_token := Some 7\<rparr>) sample_example
      = tokenize idle_call left_padding_tokenizer sample_example"
    using tokenize_assigns_pad_token [of left_padding_tokenizer sample_example idle_call "Some 7"]
    by blast
  from 1 2 3 show ?thesis by blast
qed

text \<open>
  As the claim was stated (the padding token is set before the first tokenization call,
  not by the calls), it fails: on a tokenizer without a padding token the call itself
  sets it, as the tokenizer handed to the library call shows.
\<close>

theorem tokenize_sets_pad_token_counterexample:
  "pad_token left_padding_tokenizer = None
   \<and> pad_token (snd (tokenize idle_call left_padding_tokenizer sample_example)) = Some 2
   \<and> snd (tokenize idle_call left_padding_tokenizer sample_example) \<noteq> left_padding_tokenizer"
  by (simp add: tokenize_def left_padding_tokenizer_def Let_def sample_example_def format_def
      idle_call_def)

section \<open>Properties of the model resolver and loader\<close>

lemma replace_scan_char:
  "replace_scan [a] [b] s = map (\<lambda>c. if c = a then b else c) s"
  by (induction s) auto

lemma str_replace_char:
  "str_replace s [a] [b] = map (\<lambda>c. if c = a then b else c) s"
  by (simp add: str_replace_def replace_scan_char)

text \<open>
  The branch of the resolver is decided by \<^verbatim>\<open>os.path.ismount\<close> on the bare name
  \<^verbatim>\<open>mount_point\<close>, which the operating system resolves against the working
  directory.
\<close>

lemma resolve_model_dir_branches:
  "(ismount mount_point \<longrightarrow>
      model_dir (resolve_model_dir ismount mount_point model_name env) =
        ''/Volumes/'' @ mount_point @ ''/VSWorkspace/'' @
        map (\<lambda>c. if c = CHR ''/'' then CHR ''_'' else c) model_name)
   \<and> (\<not> ismount mount_point \<longrightarrow>
        model_dir (resolve_model_dir ismount mount_point model_name env) = ''model'')"
  by (simp add: resolve_model_dir_def str_replace_char Let_def)

text \<open>
  C5 (a defect of the code). The claim is that the cache root is
  "/Volumes/Seagate/VSWorkspace/deepseek-ai_deepseek-coder-1.3b-base" when the external
  mount point is mounted, and the cell itself prints "/Volume/Seagate is mounted" in that
  branch. But the cell tests the relative path "Seagate", not "/Volumes/Seagate": where
  the drive is mounted at \<^verbatim>\<open>/Volumes/Seagate\<close> and the notebook runs in another
  directory, the test fails, the cache root is "model" and \<^verbatim>\<open>HF_HOME\<close> is not set.
\<close>

theorem resolve_model_dir_misses_mounted_volume:
  "seagate_volume_mounted (''/Volumes/'' @ notebook_mount_point)
   \<and> model_dir (resolve_model_dir seagate_volume_mounted notebook_mount_point
        notebook_model_name Map.empty) = ''model''
   \<and> model_dir (resolve_model_dir seagate_volume_mounted notebook_mount_point
        notebook_model_name Map.empty)
       \<noteq> ''/Volumes/Seagate/VSWorkspace/deepseek-ai_deepseek-coder-1.3b-base''
   \<and> environ (resolve_model_dir seagate_volume_mounted notebook_mount_point
        notebook_model_name Map.empty) ''HF_HOME'' = None"
  by (simp add: resolve_model_dir_def seagate_volume_mounted_def notebook_mount_point_def)

text \<open>
  C10. The resolver assigns \<^verbatim>\<open>HF_HOME\<close> only in the mounted branch, to the cache root;
  when the mount point is not mounted the environment is left as it was, although the
  cache root becomes "model". No other variable is ever touched.
\<close>

theorem resolve_model_dir_environ:
  "(\<not> ismount mount_point \<longrightarrow>
      environ (resolve_model_dir ismount mount_point model_name env) = env)
   \<and> (ismount mount_point \<longrightarrow>
        environ (resolve_model_dir ismount mount_point model_name env) =
          env(''HF_HOME'' \<mapsto> model_dir (resolve_model_dir ismount mount_point model_name env)))
   \<and> (\<forall>k. k \<noteq> ''HF_HOME'' \<longrightarrow>
          environ (resolve_model_dir ismount mount_point model_name env) k = env k)"
  by (simp add: resolve_model_dir_def Let_def)

theorem resolve_model_dir_environ_witness:
  "environ (resolve_model_dir (\<lambda>p. False) notebook_mount_point notebook_model_name
       [''PATH'' \<mapsto> ''/usr/bin'']) = [''PATH'' \<mapsto> ''/usr/bin'']
   \<and> model_dir (resolve_model_dir (\<lambda>p. False) notebook_mount_point notebook_model_name
       [''PATH'' \<mapsto> ''/usr/bin'']) = ''model''
   \<and> environ (resolve_model_dir (\<lambda>p. True) notebook_mount_point notebook_model_name
       [''PATH'' \<mapsto> ''/usr/bin'']) ''HF_HOME''
       = Some ''/Volumes/Seagate/VSWorkspace/deepseek-ai_deepseek-coder-1.3b-base''
   \<and> environ (resolve_model_dir (\<lambda>p. True) notebook_mount_point notebook_model_name
       [''PATH'' \<mapsto> ''/usr/bin'']) ''PATH'' = Some ''/usr/bin''"
  using resolve_model_dir_environ
      [of "\<lambda>p. False" notebook_mount_point notebook_model_name "[''PATH'' \<mapsto> ''/usr/bin'']"]
    resolve_model_dir_environ
      [of "\<lambda>p. True" notebook_mount_point notebook_model_name "[''PATH'' \<mapsto> ''/usr/bin'']"]
  by (simp add: resolve_model_dir_def str_replace_char Let_def notebook_mount_point_def
      notebook_model_name_def)

lemma load_cell_cached:
  assumes "exists dir"
  shows "load_cell exists tokf modf dir name device =
     (case tokf dir [] of
        Inl e \<Rightarrow> ([LoadTokenizer dir []], Inl e)
      | Inr t \<Rightarrow> ([LoadTokenizer dir [], LoadModel dir []],
                  (case modf dir [] of Inl e \<Rightarrow> Inl e | Inr m \<Rightarrow> Inr (t, m))))"
  using assms by (simp add: load_cell_def split: sum.splits)

lemma load_cell_fetch:
  assumes "\<not> exists dir"
  shows "load_cell exists tokf modf dir name device =
     (case tokf name (fetch_kwargs_tokenizer device) of
        Inl e \<Rightarrow> ([LoadTokenizer name (fetch_kwargs_tokenizer device)], Inl e)
      | Inr t \<Rightarrow> ([LoadTokenizer name (fetch_kwargs_tokenizer device),
                   LoadModel name fetch_kwargs_model],
                  (case modf name fetch_kwargs_model of Inl e \<Rightarrow> Inl e | Inr m \<Rightarrow> Inr (t, m))))"
  using assms
  by (simp add: load_cell_def Let_def fetch_kwargs_tokenizer_def fetch_kwargs_model_def
      split: sum.splits)

text \<open>
  C6. The loader's first call loads from the resolved cache directory if and only if
  \<^verbatim>\<open>os.path.exists\<close> holds for it. In that case both the tokenizer and the model are
  loaded from the directory and from nowhere else; otherwise both are fetched by the
  model identifier, with the keyword arguments of the fetch. In either case the cell
  succeeds exactly when both loads do, an exception of the tokenizer load ends the cell
  before the model load is tried, an exception of the model load is the cell's result,
  and no load is made twice.
\<close>

theorem load_cell_two_way:
  "(hd (fst (load_cell exists tokf modf dir name device)) = LoadTokenizer dir [] \<longleftrightarrow> exists dir)
   \<and> (exists dir \<longrightarrow>
        set (fst (load_cell exists tokf modf dir name device))
          \<subseteq> {LoadTokenizer dir [], LoadModel dir []}
        \<and> (\<forall>t m. snd (load_cell exists tokf modf dir name device) = Inr (t, m) \<longleftrightarrow>
                   tokf dir [] = Inr t \<and> modf dir [] = Inr m)
        \<and> (\<forall>e. tokf dir [] = Inl e \<longrightarrow>
                 load_cell exists tokf modf dir name device = ([LoadTokenizer dir []], Inl e))
        \<and> (\<forall>t e. tokf dir [] = Inr t \<longrightarrow> modf dir [] = Inl e \<longrightarrow>
                 snd (load_cell exists tokf modf dir name device) = Inl e))
   \<and> (\<not> exists dir \<longrightarrow>
        set (fst (load_cell exists tokf modf dir name device))
          \<subseteq> {LoadTokenizer name (fetch_kwargs_tokenizer device),
              LoadModel name fetch_kwargs_model}
        \<and> (\<forall>t m. snd (load_cell exists tokf modf dir name device) = Inr (t, m) \<longleftrightarrow>
                   tokf name (fetch_kwargs_tokenizer device) = Inr t
                   \<and> modf name fetch_kwargs_model = Inr m)
        \<and> (\<forall>e. tokf name (fetch_kwargs_tokenizer device) = Inl e \<longrightarrow>
                 load_cell exists tokf modf dir name device =
                   ([LoadTokenizer name (fetch_kwargs_tokenizer device)], Inl e))
        \<and> (\<forall>t e. tokf name (fetch_kwargs_tokenizer device) = Inr t \<longrightarrow>
                 modf name fetch_kwargs_model = Inl e \<longrightarrow>
                 snd (load_cell exists tokf modf dir name device) = Inl e))
   \<and> distinct (fst (load_cell exists tokf modf dir name device))
   \<and> length (fst (load_cell exists tokf modf dir name device)) \<le> 2"
proof (cases "exists dir")
  case True
  show ?thesis
    unfolding load_cell_cached [of exists dir tokf modf name device, OF True] using True
    by (auto split: sum.splits)
next
  case False
  show ?thesis
    unfolding load_cell_fetch [of exists dir tokf modf name device, OF False] using False
    by (auto simp: fetch_kwargs_tokenizer_def split: sum.splits)
qed

theorem load_cell_two_way_witness:
  "load_cell (\<lambda>p. p = ''model'') (\<lambda>src kw. Inr src) (\<lambda>src kw. Inl (LibraryError ''OSError''))
      ''model'' notebook_model_name ''cpu''
     = ([LoadTokenizer ''model'' [], LoadModel ''model'' []],
        (Inl (LibraryError ''OSError'') :: error + string \<times> string))
   \<and> load_cell (\<lambda>p. False) (\<lambda>src kw. Inl (LibraryError ''OSError'')) (\<lambda>src kw. Inr src)
      ''model'' notebook_model_name ''cpu''
     = ([LoadTokenizer notebook_model_name [(''device_map'', ''cpu'')]],
        (Inl (LibraryError ''OSError'') :: error + string \<times> string))"
  using load_cell_two_way [of "\<lambda>p. p = ''model''" "\<lambda>src kw. Inr src"
      "\<lambda>src kw. (Inl (LibraryError ''OSError'') :: error + string)" "''model''"
      notebook_model_name "''cpu''"]
    load_cell_two_way [of "\<lambda>p. False" "\<lambda>src kw. (Inl (LibraryError ''OSError'') :: error + string)"
      "\<lambda>src kw. (Inr src :: error + string)" "''model''" notebook_model_name "''cpu''"]
  by (simp add: load_cell_def fetch_kwargs_tokenizer_def)

end
